theory Spec2Isabelle
  imports Complex_Main
begin

section \<open>IEEE 1115-2014 battery sizing: the calculation of process.py\<close>

text \<open>
  The script reads a parameter object, a discharge curve and a starting sequence, and then
  sizes the battery section by section. The embedding starts where the data has been
  loaded (line 106 of process.py) and follows the script to its last line.

  Numbers: Python and numpy floats are idealised as real numbers, so rounding, overflow
  and the order of a summation are not part of the model. A division whose divisor is zero
  gives inf or nan under numpy (with a warning, no exception), where the reals have no
  such value; a theorem about the value of a Kt factor therefore assumes that the
  interpolated current is not zero at the durations it uses. The one place where such a
  quotient decides whether the script raises, the conversion to an integer on line 162, is
  written out in \<open>int_of_quotient\<close>.

  The interpolant of line 82 is built by scipy; it is a parameter
  \<open>ampsByDurationFunction\<close> of the model, a function from seconds to amps.
\<close>

subsection \<open>Data\<close>

text \<open>One line of the starting sequence: column 0 is the duration of the period in seconds,
  column 1 the current in amps, column 2 the starting cycle number.\<close>

record row =
  sectionDuration :: real
  currentAmps :: real
  cycleNumber :: int

text \<open>The fields of class IEEE1115 that the calculation reads.\<close>

record IEEE1115 =
  nominalCapacity :: real
  numberOfSections :: int
  verbose :: bool
  deratingFactorOnTemp :: real
  randomSize :: real
  designMargin :: real
  agingFactor :: real
  finalTolerance :: real

text \<open>The exceptions the calculation can raise, with what their message carries.
  \<open>Unfit\<close> is raised by checkPeriod, \<open>FirstAfterLast\<close> by durationBetweenPeriods,
  \<open>ZeroSizeMaximum\<close> by numpy's max of an empty array, and the last two by int() on
  an infinite or undefined float.\<close>

datatype message =
    Unfit string int nat
  | FirstAfterLast int int
  | ZeroSizeMaximum
  | FloatInfinityToInteger
  | FloatNaNToInteger

datatype error = IndexError message | ValueError message | OverflowError message

text \<open>What the script prints from line 127 on, one constructor for each print statement,
  carrying the values that the statement formats.\<close>

datatype line =
    SectionSkipped int
  | SectionHeader int
  | PeriodLine int real real real real real real real
  | SectionTotal real
  | ResultTesting int
  | MaximumSectionSize real real
  | UncorrectedSize real
  | SizeFactors real real real
  | SizeLine real
  | NumberOfBatteries int real

text \<open>The values of the final lines of the script.\<close>

record report =
  reportCycleNb :: int
  reportMaximumSectionSize :: real
  reportUncorrectedSize :: real
  reportSize :: real
  reportNumberOfBatteriesRequired :: int

subsection \<open>Lookups in the starting sequence\<close>

definition checkPeriod :: "row list \<Rightarrow> int \<Rightarrow> string \<Rightarrow> error + unit" where
  "checkPeriod startingSequence period periodName =
     (if period < 1 \<or> period > int (length startingSequence)
      then Inl (IndexError (Unfit periodName period (length startingSequence)))
      else Inr ())"

definition durationBetweenPeriods :: "row list \<Rightarrow> int \<Rightarrow> int \<Rightarrow> error + real" where
  "durationBetweenPeriods startingSequence firstPeriod lastPeriod =
     (case checkPeriod startingSequence firstPeriod ''durationBetweenPeriods::firstPeriod'' of
        Inl e \<Rightarrow> Inl e
      | Inr _ \<Rightarrow>
     (case checkPeriod startingSequence lastPeriod ''durationBetweenPeriods::lastPeriod'' of
        Inl e \<Rightarrow> Inl e
      | Inr _ \<Rightarrow>
     if firstPeriod > lastPeriod
     then Inl (IndexError (FirstAfterLast firstPeriod lastPeriod))
     else Inr (sum_list (map sectionDuration
                 (drop (nat (firstPeriod - 1)) (take (nat lastPeriod) startingSequence))))))"

definition ampsAtPeriod :: "row list \<Rightarrow> int \<Rightarrow> error + real" where
  "ampsAtPeriod startingSequence period =
     (case checkPeriod startingSequence period ''ampsAtPeriod::period'' of
        Inl e \<Rightarrow> Inl e
      | Inr _ \<Rightarrow> Inr (currentAmps (startingSequence ! nat (period - 1))))"

definition cycleAtPeriod :: "row list \<Rightarrow> int \<Rightarrow> error + int" where
  "cycleAtPeriod startingSequence period =
     (case checkPeriod startingSequence period ''cycleAtPeriod::period'' of
        Inl e \<Rightarrow> Inl e
      | Inr _ \<Rightarrow> Inr (cycleNumber (startingSequence ! nat (period - 1))))"

subsection \<open>The Kt factor\<close>

text \<open>Line 94 divides and checks nothing, so no branch of the function raises.\<close>

definition ktFactorFunction :: "IEEE1115 \<Rightarrow> (real \<Rightarrow> real) \<Rightarrow> real \<Rightarrow> error + real" where
  "ktFactorFunction testParams ampsByDurationFunction duration =
     Inr (nominalCapacity testParams / ampsByDurationFunction duration)"

subsection \<open>The loop over the periods of one section (lines 137 to 148)\<close>

text \<open>The state of the loop is previousLoad, the array requiredSectionSizes and what has
  been printed. The read of column 0 on line 141 comes after ampsAtPeriod has accepted the
  same period, so its index is in range.\<close>

fun periodLoop ::
  "IEEE1115 \<Rightarrow> (real \<Rightarrow> real) \<Rightarrow> row list \<Rightarrow> int \<Rightarrow> int list \<Rightarrow> real \<Rightarrow> real list \<Rightarrow> line list
     \<Rightarrow> (error + real list) \<times> line list" where
  "periodLoop testParams ampsByDurationFunction startingSequence section []
       previousLoad requiredSectionSizes out = (Inr requiredSectionSizes, out)"
| "periodLoop testParams ampsByDurationFunction startingSequence section (period # periods)
       previousLoad requiredSectionSizes out =
     (case ampsAtPeriod startingSequence period of
        Inl e \<Rightarrow> (Inl e, out)
      | Inr load \<Rightarrow>
     (let changeInLoad = load - previousLoad;
          duration = sectionDuration (startingSequence ! nat (period - 1))
      in case durationBetweenPeriods startingSequence period section of
        Inl e \<Rightarrow> (Inl e, out)
      | Inr durationToSectionEnd \<Rightarrow>
     (case ktFactorFunction testParams ampsByDurationFunction durationToSectionEnd of
        Inl e \<Rightarrow> (Inl e, out)
      | Inr kt \<Rightarrow>
     (let tempDeratingFactor = deratingFactorOnTemp testParams;
          requiredSectionSize = changeInLoad * kt * tempDeratingFactor;
          out' = (if verbose testParams
                  then out @ [PeriodLine period load changeInLoad duration durationToSectionEnd
                                kt tempDeratingFactor requiredSectionSize]
                  else out)
      in periodLoop testParams ampsByDurationFunction startingSequence section periods
           load (requiredSectionSizes @ [requiredSectionSize]) out'))))"

subsection \<open>The loop over the sections (lines 127 to 152)\<close>

text \<open>The test of line 128; \<open>and\<close> evaluates its right operand only when the left one
  holds.\<close>

definition skipCondition :: "row list \<Rightarrow> int \<Rightarrow> error + bool" where
  "skipCondition startingSequence section =
     (if section < int (length startingSequence)
      then (case ampsAtPeriod startingSequence section of
              Inl e \<Rightarrow> Inl e
            | Inr a \<Rightarrow>
           (case ampsAtPeriod startingSequence (section + 1) of
              Inl e \<Rightarrow> Inl e
            | Inr b \<Rightarrow> Inr (a < b)))
      else Inr False)"

fun sectionLoop ::
  "IEEE1115 \<Rightarrow> (real \<Rightarrow> real) \<Rightarrow> row list \<Rightarrow> int list \<Rightarrow> real list \<Rightarrow> line list
     \<Rightarrow> (error + real list) \<times> line list" where
  "sectionLoop testParams ampsByDurationFunction startingSequence []
       requiredSizesPerSection out = (Inr requiredSizesPerSection, out)"
| "sectionLoop testParams ampsByDurationFunction startingSequence (section # sections)
       requiredSizesPerSection out =
     (case skipCondition startingSequence section of
        Inl e \<Rightarrow> (Inl e, out)
      | Inr True \<Rightarrow>
          sectionLoop testParams ampsByDurationFunction startingSequence sections
            requiredSizesPerSection
            (if verbose testParams then out @ [SectionSkipped section] else out)
      | Inr False \<Rightarrow>
     (case periodLoop testParams ampsByDurationFunction startingSequence section [1..section]
             0 [] (if verbose testParams then out @ [SectionHeader section] else out) of
        (Inl e, out') \<Rightarrow> (Inl e, out')
      | (Inr requiredSectionSizes, out') \<Rightarrow>
     (let maxRequiredSectionSize = sum_list requiredSectionSizes
      in sectionLoop testParams ampsByDurationFunction startingSequence sections
           (requiredSizesPerSection @ [maxRequiredSectionSize])
           (if verbose testParams then out' @ [SectionTotal maxRequiredSectionSize]
            else out'))))"

subsection \<open>The final lines (153 to 163)\<close>

text \<open>numpy's max of an array: it raises on an empty one.\<close>

fun np_max :: "real list \<Rightarrow> error + real" where
  "np_max [] = Inl (ValueError ZeroSizeMaximum)"
| "np_max (x # xs) = Inr (fold max xs x)"

text \<open>Python's int() of a float drops the fractional part.\<close>

definition py_int :: "real \<Rightarrow> int" where
  "py_int x = (if 0 \<le> x then \<lfloor>x\<rfloor> else \<lceil>x\<rceil>)"

text \<open>int(a / b) for numpy floats: with b zero the quotient is nan when a is zero and
  infinite otherwise, and int() raises on both.\<close>

definition int_of_quotient :: "real \<Rightarrow> real \<Rightarrow> error + int" where
  "int_of_quotient a b =
     (if b = 0
      then (if a = 0 then Inl (ValueError FloatNaNToInteger)
            else Inl (OverflowError FloatInfinityToInteger))
      else Inr (py_int (a / b)))"

definition aggregation ::
  "IEEE1115 \<Rightarrow> int \<Rightarrow> real list \<Rightarrow> line list \<Rightarrow> (error + report) \<times> line list" where
  "aggregation testParams cycleNb requiredSizesPerSection out =
     (let out1 = out @ [ResultTesting cycleNb]
      in case np_max requiredSizesPerSection of
        Inl e \<Rightarrow> (Inl e, out1)
      | Inr maximumSectionSize \<Rightarrow>
     (let uncorrectedSize = maximumSectionSize + randomSize testParams;
          out2 = out1 @ [MaximumSectionSize maximumSectionSize (randomSize testParams),
                         UncorrectedSize uncorrectedSize];
          size_Ah = uncorrectedSize * designMargin testParams * agingFactor testParams;
          out3 = out2 @ [SizeFactors uncorrectedSize (designMargin testParams)
                           (agingFactor testParams),
                         SizeLine size_Ah]
      in case int_of_quotient (size_Ah * finalTolerance testParams + nominalCapacity testParams)
                (nominalCapacity testParams) of
        Inl e \<Rightarrow> (Inl e, out3)
      | Inr numberOfBatteriesRequired \<Rightarrow>
          (Inr \<lparr>reportCycleNb = cycleNb,
                reportMaximumSectionSize = maximumSectionSize,
                reportUncorrectedSize = uncorrectedSize,
                reportSize = size_Ah,
                reportNumberOfBatteriesRequired = numberOfBatteriesRequired\<rparr>,
           out3 @ [NumberOfBatteries numberOfBatteriesRequired
                     (100 * (1 - finalTolerance testParams))])))"

text \<open>The script from line 106 to its end.\<close>

definition main ::
  "IEEE1115 \<Rightarrow> (real \<Rightarrow> real) \<Rightarrow> row list \<Rightarrow> (error + report) \<times> line list" where
  "main testParams ampsByDurationFunction startingSequence =
     (case checkPeriod startingSequence (numberOfSections testParams)
             ''testParams.numberOfSections'' of
        Inl e \<Rightarrow> (Inl e, [])
      | Inr _ \<Rightarrow>
     (case sectionLoop testParams ampsByDurationFunction startingSequence
             [1..numberOfSections testParams] [] [] of
        (Inl e, out) \<Rightarrow> (Inl e, out)
      | (Inr requiredSizesPerSection, out) \<Rightarrow>
     (case cycleAtPeriod startingSequence (numberOfSections testParams) of
        Inl e \<Rightarrow> (Inl e, out)
      | Inr cycleNb \<Rightarrow> aggregation testParams cycleNb requiredSizesPerSection out)))"


subsection \<open>Notions used to state the properties\<close>

text \<open>The current of a period, 1-based, with 0 before the first period (the initial value
  of previousLoad).\<close>

definition current :: "row list \<Rightarrow> int \<Rightarrow> real" where
  "current s k = (if k = 0 then 0 else currentAmps (s ! nat (k - 1)))"

text \<open>The sum of the durations of the periods firstPeriod to lastPeriod, both inclusive
  and 1-based.\<close>

definition cumulativeDuration :: "row list \<Rightarrow> int \<Rightarrow> int \<Rightarrow> real" where
  "cumulativeDuration s firstPeriod lastPeriod =
     (\<Sum>i = firstPeriod..lastPeriod. sectionDuration (s ! nat (i - 1)))"

text \<open>The sizes that the periods \<open>ks\<close> of section \<open>S\<close> add to requiredSectionSizes when the
  load before them is \<open>prev\<close>.\<close>

fun contributions ::
  "IEEE1115 \<Rightarrow> (real \<Rightarrow> real) \<Rightarrow> row list \<Rightarrow> int \<Rightarrow> real \<Rightarrow> int list \<Rightarrow> real list" where
  "contributions p f s S prev [] = []"
| "contributions p f s S prev (k # ks) =
     (current s k - prev) * (nominalCapacity p / f (cumulativeDuration s k S))
        * deratingFactorOnTemp p
     # contributions p f s S (current s k) ks"

definition sectionTotal :: "IEEE1115 \<Rightarrow> (real \<Rightarrow> real) \<Rightarrow> row list \<Rightarrow> int \<Rightarrow> real" where
  "sectionTotal p f s S =
     (\<Sum>k = 1..S. (current s k - current s (k - 1))
                  * (nominalCapacity p / f (cumulativeDuration s k S))
                  * deratingFactorOnTemp p)"

definition skipped :: "row list \<Rightarrow> int \<Rightarrow> bool" where
  "skipped s S = (S < int (length s) \<and> current s S < current s (S + 1))"

subsection \<open>Concrete inputs\<close>

text \<open>Two periods of one starting cycle: 5 s at 80 A, then 10 s at 120 A.\<close>

definition ex_seq :: "row list" where
  "ex_seq = [\<lparr>sectionDuration = 5, currentAmps = 80, cycleNumber = 1\<rparr>,
             \<lparr>sectionDuration = 10, currentAmps = 120, cycleNumber = 1\<rparr>]"

definition ex_params :: "int \<Rightarrow> bool \<Rightarrow> IEEE1115" where
  "ex_params n v =
     \<lparr>nominalCapacity = 100, numberOfSections = n, verbose = v, deratingFactorOnTemp = 1,
      randomSize = 5, designMargin = 11 / 10, agingFactor = 12 / 10, finalTolerance = 9 / 10\<rparr>"

text \<open>A discharge curve that falls with the duration, and one that is negative.\<close>

definition ex_amps :: "real \<Rightarrow> real" where
  "ex_amps d = 500 / d"

definition ex_negative_amps :: "real \<Rightarrow> real" where
  "ex_negative_amps d = - 50"

section \<open>Properties\<close>

lemmas ex_defs = ex_seq_def ex_params_def ex_amps_def ex_negative_amps_def

lemmas run_defs = main_def checkPeriod_def skipCondition_def ampsAtPeriod_def cycleAtPeriod_def
  aggregation_def durationBetweenPeriods_def ktFactorFunction_def int_of_quotient_def py_int_def

subsection \<open>Sums over a slice\<close>

lemma sum_list_take:
  fixes f :: "'a \<Rightarrow> real"
  shows "b \<le> length xs \<Longrightarrow> sum_list (map f (take b xs)) = (\<Sum>i = 0..<b. f (xs ! i))"
proof (induction b)
  case 0
  then show ?case by simp
next
  case (Suc b)
  then have "take (Suc b) xs = take b xs @ [xs ! b]"
    by (simp add: take_Suc_conv_app_nth)
  with Suc show ?case by simp
qed

lemma sum_list_slice:
  fixes f :: "'a \<Rightarrow> real"
  assumes "a \<le> b" "b \<le> length xs"
  shows "sum_list (map f (drop a (take b xs))) = (\<Sum>i = a..<b. f (xs ! i))"
proof -
  have "take b xs = take a (take b xs) @ drop a (take b xs)"
    by (rule append_take_drop_id [symmetric])
  then have "sum_list (map f (take b xs)) =
      sum_list (map f (take a (take b xs))) + sum_list (map f (drop a (take b xs)))"
    by (metis map_append sum_list_append)
  moreover have "take a (take b xs) = take a xs"
    using assms by (simp add: min_def)
  moreover have "a \<le> length xs" using assms by simp
  ultimately have "sum_list (map f (drop a (take b xs))) =
      (\<Sum>i = 0..<b. f (xs ! i)) - (\<Sum>i = 0..<a. f (xs ! i))"
    using assms by (simp add: sum_list_take)
  also have "\<dots> = (\<Sum>i = a..<b. f (xs ! i))"
    using assms(1) sum.atLeastLessThan_concat [of 0 a b "\<lambda>i. f (xs ! i)"] by simp
  finally show ?thesis .
qed

lemma sum_slice_reindex:
  fixes g :: "nat \<Rightarrow> real"
  assumes "1 \<le> firstPeriod"
  shows "(\<Sum>i = nat (firstPeriod - 1)..<nat lastPeriod. g i) =
         (\<Sum>i = firstPeriod..lastPeriod. g (nat (i - 1)))"
  by (rule sum.reindex_bij_witness [where i = "\<lambda>i. nat (i - 1)" and j = "\<lambda>i. int i + 1"])
     (use assms in auto)

subsection \<open>The lookups on valid indices\<close>

lemma durationBetweenPeriods_Inr:
  assumes "1 \<le> firstPeriod" "firstPeriod \<le> lastPeriod" "lastPeriod \<le> int (length s)"
  shows "durationBetweenPeriods s firstPeriod lastPeriod =
           Inr (cumulativeDuration s firstPeriod lastPeriod)"
proof -
  have "sum_list (map sectionDuration (drop (nat (firstPeriod - 1)) (take (nat lastPeriod) s))) =
      (\<Sum>i = nat (firstPeriod - 1)..<nat lastPeriod. sectionDuration (s ! i))"
    using assms by (intro sum_list_slice) auto
  also have "\<dots> = cumulativeDuration s firstPeriod lastPeriod"
    unfolding cumulativeDuration_def using assms(1) by (rule sum_slice_reindex)
  finally show ?thesis
    using assms by (simp add: durationBetweenPeriods_def checkPeriod_def)
qed

lemma ampsAtPeriod_Inr:
  "1 \<le> k \<Longrightarrow> k \<le> int (length s) \<Longrightarrow> ampsAtPeriod s k = Inr (current s k)"
  by (simp add: ampsAtPeriod_def checkPeriod_def current_def)

lemma skipCondition_Inr:
  "1 \<le> S \<Longrightarrow> S \<le> int (length s) \<Longrightarrow> skipCondition s S = Inr (skipped s S)"
  by (simp add: skipCondition_def skipped_def ampsAtPeriod_Inr)

subsection \<open>What the two loops compute\<close>

lemma periodLoop_result:
  assumes "\<forall>k \<in> set ks. 1 \<le> k \<and> k \<le> S" "S \<le> int (length s)"
  shows "fst (periodLoop p f s S ks prev sizes out) = Inr (sizes @ contributions p f s S prev ks)"
  using assms(1)
proof (induction ks arbitrary: prev sizes out)
  case Nil
  then show ?case by simp
next
  case (Cons k ks)
  then have k: "1 \<le> k" "k \<le> S" "k \<le> int (length s)"
    using assms(2) by auto
  have rest: "\<forall>k \<in> set ks. 1 \<le> k \<and> k \<le> S"
    using Cons.prems by simp
  show ?case
    using k assms(2) Cons.IH [OF rest]
    by (simp add: ampsAtPeriod_Inr durationBetweenPeriods_Inr ktFactorFunction_def Let_def)
qed

lemma sum_list_contributions:
  "sum_list (contributions p f s S prev [a..S]) =
     (\<Sum>k = a..S. (current s k - (if k = a then prev else current s (k - 1)))
                  * (nominalCapacity p / f (cumulativeDuration s k S))
                  * deratingFactorOnTemp p)"
proof (induction a S arbitrary: prev rule: upto.induct)
  case (1 a S)
  show ?case
  proof (cases "a \<le> S")
    case True
    have split: "{a..S} = insert a {a + 1..S}"
      using True by auto
    have "(\<Sum>k = a + 1..S. (current s k - (if k = a + 1 then current s a else current s (k - 1)))
                  * (nominalCapacity p / f (cumulativeDuration s k S)) * deratingFactorOnTemp p) =
          (\<Sum>k = a + 1..S. (current s k - (if k = a then prev else current s (k - 1)))
                  * (nominalCapacity p / f (cumulativeDuration s k S)) * deratingFactorOnTemp p)"
      by (rule sum.cong) auto
    then show ?thesis
      using True "1.IH" [OF True, of "current s a"]
      by (simp add: upto_rec1 [of a S] split)
  next
    case False
    then show ?thesis by simp
  qed
qed

lemma sectionTotal_contributions:
  "sum_list (contributions p f s S 0 [1..S]) = sectionTotal p f s S"
  unfolding sectionTotal_def sum_list_contributions
  by (rule sum.cong) (auto simp: current_def)

lemma sectionLoop_result:
  assumes "\<forall>S \<in> set Ss. 1 \<le> S \<and> S \<le> int (length s)"
  shows "fst (sectionLoop p f s Ss sizes out) =
           Inr (sizes @ map (sectionTotal p f s) (filter (\<lambda>S. \<not> skipped s S) Ss))"
  using assms
proof (induction Ss arbitrary: sizes out)
  case Nil
  then show ?case by simp
next
  case (Cons S Ss)
  then have S: "1 \<le> S" "S \<le> int (length s)"
    by auto
  have rest: "\<forall>S \<in> set Ss. 1 \<le> S \<and> S \<le> int (length s)"
    using Cons.prems by simp
  show ?case
  proof (cases "skipped s S")
    case True
    then show ?thesis
      using S Cons.IH [OF rest] by (simp add: skipCondition_Inr)
  next
    case False
    obtain r out' where r: "periodLoop p f s S [1..S] 0 []
        (if verbose p then out @ [SectionHeader S] else out) = (r, out')"
      by (cases "periodLoop p f s S [1..S] 0 []
        (if verbose p then out @ [SectionHeader S] else out)")
    have "fst (periodLoop p f s S [1..S] 0 []
        (if verbose p then out @ [SectionHeader S] else out)) =
        Inr ([] @ contributions p f s S 0 [1..S])"
      using S by (intro periodLoop_result) auto
    with r have "r = Inr (contributions p f s S 0 [1..S])"
      by simp
    with r False show ?thesis
      using S Cons.IH [OF rest]
      by (simp add: skipCondition_Inr sectionTotal_contributions Let_def)
  qed
qed

lemma sectionLoop_all_skipped:
  assumes "\<forall>S \<in> set Ss. 1 \<le> S \<and> S \<le> int (length s) \<and> skipped s S"
  shows "sectionLoop p f s Ss sizes out =
           (Inr sizes, out @ (if verbose p then map SectionSkipped Ss else []))"
  using assms
proof (induction Ss arbitrary: out)
  case Nil
  then show ?case by simp
next
  case (Cons S Ss)
  then show ?case
    by (simp add: skipCondition_Inr)
qed

subsection \<open>The maximum\<close>

lemma np_max_Max:
  assumes "xs \<noteq> []"
  shows "np_max xs = Inr (Max (set xs))"
proof (cases xs)
  case Nil
  with assms show ?thesis by simp
next
  case (Cons x ys)
  have "Max (set (x # ys)) = fold max ys x"
    by (rule Max.set_eq_fold)
  with Cons show ?thesis by simp
qed

lemma aggregation_not_empty_failure:
  "xs \<noteq> [] \<Longrightarrow> fst (aggregation p c xs out) \<noteq> Inl (ValueError ZeroSizeMaximum)"
  by (simp add: aggregation_def np_max_Max int_of_quotient_def Let_def)

subsection \<open>Section totals\<close>

text \<open>
  Claim C1. A section \<open>S\<close> of the run (\<open>1 \<le> S \<le> numberOfSections \<le>\<close> number of periods)
  that the test of line 128 does not skip adds one value to requiredSizesPerSection, and
  that value is the sum over the periods \<open>k = 1..S\<close> of
  \<open>(current k - current (k - 1)) * (nominalCapacity / amps (cumulativeDuration k S)) *
  deratingFactorOnTemp\<close>, with \<open>current 0 = 0\<close>. A negative change of load enters the sum
  as it is. The interpolated current is assumed not to be zero at the durations used.
\<close>

theorem section_total_superposition:
  assumes "1 \<le> S" "S \<le> numberOfSections p" "numberOfSections p \<le> int (length s)"
    and "\<not> (S < int (length s) \<and> current s S < current s (S + 1))"
    and "\<forall>k \<in> {1..S}. f (cumulativeDuration s k S) \<noteq> 0"
  shows "fst (sectionLoop p f s [S] sizes out) =
           Inr (sizes @ [\<Sum>k = 1..S. (current s k - current s (k - 1))
                                    * (nominalCapacity p / f (cumulativeDuration s k S))
                                    * deratingFactorOnTemp p])"
proof -
  have "\<forall>S' \<in> set [S]. 1 \<le> S' \<and> S' \<le> int (length s)"
    using assms by simp
  from sectionLoop_result [OF this, of p f sizes out] assms(4)
  show ?thesis by (simp add: skipped_def sectionTotal_def)
qed

theorem section_total_superposition_witness:
  "fst (sectionLoop (ex_params 2 False) ex_amps ex_seq [2] [] []) = Inr [320]
   \<and> (\<Sum>k = 1..2. (current ex_seq k - current ex_seq (k - 1))
          * (nominalCapacity (ex_params 2 False) / ex_amps (cumulativeDuration ex_seq k 2))
          * deratingFactorOnTemp (ex_params 2 False)) = 320"
proof -
  have two: "{1..2::int} = {1, 2}"
    by auto
  have "cumulativeDuration ex_seq 1 2 = 15" "cumulativeDuration ex_seq 2 2 = 10"
    by (simp_all add: cumulativeDuration_def two ex_seq_def)
  then have "\<forall>k \<in> {1..2}. ex_amps (cumulativeDuration ex_seq k 2) \<noteq> 0"
    by (simp add: two ex_amps_def)
  from section_total_superposition [of 2 "ex_params 2 False" ex_seq ex_amps "[]" "[]", OF _ _ _ _ this]
  show ?thesis
    by (simp add: ex_defs run_defs upto.simps current_def)
qed

subsection \<open>The skip rule\<close>

text \<open>
  Claim C2. For a section \<open>S\<close> of the run, the step of the section loop leaves
  requiredSizesPerSection as it was exactly when \<open>S\<close> is below the number of periods and
  \<open>current S < current (S + 1)\<close>; otherwise it appends one value. Over the whole loop the
  array holds one value for each section that does not satisfy this condition, and
  none for the others.
\<close>

theorem skip_rule:
  assumes "1 \<le> S" "S \<le> numberOfSections p" "numberOfSections p \<le> int (length s)"
  shows "((fst (sectionLoop p f s [S] sizes out) = Inr sizes)
            = (S < int (length s) \<and> current s S < current s (S + 1)))
         \<and> (\<exists>total. fst (sectionLoop p f s [S] sizes out) =
               Inr (if S < int (length s) \<and> current s S < current s (S + 1)
                    then sizes else sizes @ [total]))
         \<and> (\<exists>totals. fst (sectionLoop p f s [1..numberOfSections p] [] []) = Inr totals
               \<and> length totals =
                   length (filter (\<lambda>S. \<not> (S < int (length s) \<and> current s S < current s (S + 1)))
                     [1..numberOfSections p]))"
proof -
  let ?skip = "\<lambda>S. S < int (length s) \<and> current s S < current s (S + 1)"
  have "\<forall>S' \<in> set [S]. 1 \<le> S' \<and> S' \<le> int (length s)"
    using assms by simp
  from sectionLoop_result [OF this, of p f sizes out]
  have step: "fst (sectionLoop p f s [S] sizes out) =
      Inr (if ?skip S then sizes else sizes @ [sectionTotal p f s S])"
    by (simp add: skipped_def)
  then have one: "(fst (sectionLoop p f s [S] sizes out) = Inr sizes) = ?skip S"
    by simp
  have "\<forall>S' \<in> set [1..numberOfSections p]. 1 \<le> S' \<and> S' \<le> int (length s)"
    using assms by simp
  from sectionLoop_result [OF this, of p f "[]" "[]"]
  have "fst (sectionLoop p f s [1..numberOfSections p] [] []) =
      Inr (map (sectionTotal p f s) (filter (\<lambda>S. \<not> ?skip S) [1..numberOfSections p]))"
    by (simp add: skipped_def)
  then have all: "\<exists>totals. fst (sectionLoop p f s [1..numberOfSections p] [] []) = Inr totals
      \<and> length totals = length (filter (\<lambda>S. \<not> ?skip S) [1..numberOfSections p])"
    by simp
  from step have "\<exists>total. fst (sectionLoop p f s [S] sizes out) =
      Inr (if ?skip S then sizes else sizes @ [total])"
    by blast
  with one all show ?thesis by blast
qed

theorem skip_rule_witness:
  "fst (sectionLoop (ex_params 2 True) ex_amps ex_seq [1] [7] []) = Inr [7]
   \<and> current ex_seq 1 < current ex_seq 2
   \<and> (\<exists>totals. fst (sectionLoop (ex_params 2 True) ex_amps ex_seq [1..2] [] []) = Inr totals
         \<and> length totals = 1)"
  using skip_rule [of 1 "ex_params 2 True" ex_seq ex_amps "[7]" "[]"]
  by (simp add: ex_defs current_def upto.simps)

subsection \<open>The final formula\<close>

text \<open>
  Claim C3. From a non-empty array of section sizes (and a nominal capacity that is not
  zero) the final lines compute the maximum of the array, the uncorrected size as the
  maximum plus randomSize, the size as the uncorrected size times designMargin times
  agingFactor, and the number of batteries as
  \<open>(size * finalTolerance + nominalCapacity) / nominalCapacity\<close> with its fractional part
  dropped (rounded toward zero).
\<close>

theorem aggregation_formula:
  assumes "requiredSizesPerSection \<noteq> []" "nominalCapacity p \<noteq> 0"
  shows "let maximumSectionSize = Max (set requiredSizesPerSection);
             uncorrectedSize = maximumSectionSize + randomSize p;
             correctedSize = uncorrectedSize * designMargin p * agingFactor p;
             q = (correctedSize * finalTolerance p + nominalCapacity p) / nominalCapacity p
         in fst (aggregation p cycleNb requiredSizesPerSection out) =
              Inr \<lparr>reportCycleNb = cycleNb,
                    reportMaximumSectionSize = maximumSectionSize,
                    reportUncorrectedSize = uncorrectedSize,
                    reportSize = correctedSize,
                    reportNumberOfBatteriesRequired = (if 0 \<le> q then \<lfloor>q\<rfloor> else - \<lfloor>- q\<rfloor>)\<rparr>"
  using assms
  by (simp add: aggregation_def np_max_Max int_of_quotient_def py_int_def Let_def ceiling_def)

theorem aggregation_formula_witness:
  "fst (aggregation (ex_params 2 False) 1 [100, 320, 50] []) =
     Inr \<lparr>reportCycleNb = 1, reportMaximumSectionSize = 320, reportUncorrectedSize = 325,
           reportSize = 429, reportNumberOfBatteriesRequired = 4\<rparr>"
  using aggregation_formula [of "[100, 320, 50]" "ex_params 2 False" 1 "[]"]
  by (simp add: ex_defs Let_def)

subsection \<open>A run in which every section is skipped\<close>

text \<open>
  With the two periods of \<open>ex_seq\<close> and numberOfSections = 1 the only section is skipped
  (80 A before 120 A). The run ends with the error of the empty maximum, and by then line
  154 has printed the tested cycle number, which is the first line of the final report.
\<close>

theorem all_skipped_counterexample:
  "main (ex_params 1 False) ex_amps ex_seq =
     (Inl (ValueError ZeroSizeMaximum), [ResultTesting 1])"
  by (simp add: ex_defs run_defs)

text \<open>
  Claim C4, as the script has it. When every section \<open>1..numberOfSections\<close> is skipped, the
  run ends with the error that numpy raises for the maximum of an empty array. What has
  been printed by then is, in verbose mode, one line for each skipped section, and then the
  line of the tested cycle number; no size and no number of batteries has been printed.
\<close>

theorem all_skipped_fails_after_result_line:
  assumes "1 \<le> numberOfSections p" "numberOfSections p \<le> int (length s)"
    and "\<forall>S \<in> {1..numberOfSections p}. S < int (length s) \<and> current s S < current s (S + 1)"
  shows "main p f s =
           (Inl (ValueError ZeroSizeMaximum),
            (if verbose p then map SectionSkipped [1..numberOfSections p] else [])
              @ [ResultTesting (cycleNumber (s ! nat (numberOfSections p - 1)))])"
proof -
  have "\<forall>S \<in> set [1..numberOfSections p]. 1 \<le> S \<and> S \<le> int (length s) \<and> skipped s S"
    using assms by (auto simp: skipped_def)
  from sectionLoop_all_skipped [OF this, of p f "[]" "[]"]
  show ?thesis
    using assms(1,2)
    by (simp add: main_def checkPeriod_def cycleAtPeriod_def aggregation_def)
qed

theorem all_skipped_fails_after_result_line_witness:
  "main (ex_params 1 True) ex_amps ex_seq =
     (Inl (ValueError ZeroSizeMaximum), [SectionSkipped 1, ResultTesting 1])"
  using all_skipped_fails_after_result_line [of "ex_params 1 True" ex_seq ex_amps]
  by (simp add: ex_defs current_def)

subsection \<open>The Kt factor\<close>

text \<open>
  Where the interpolated current is negative, line 94 returns the negative quotient: with
  a nominal capacity of 100 and a current of -50 the Kt factor is -2, and nothing is
  raised.
\<close>

theorem ktFactor_negative_current_counterexample:
  "ex_negative_amps 15 \<le> 0
   \<and> ktFactorFunction (ex_params 2 False) ex_negative_amps 15 = Inr (- 2)"
  by (simp add: ex_defs ktFactorFunction_def)

text \<open>
  Claim C5, as the script has it. For every duration at which the interpolated current is
  not zero, positive or negative, ktFactorFunction returns the nominal capacity divided
  by that current; it raises nothing.
\<close>

theorem ktFactor_quotient:
  "f d \<noteq> 0 \<Longrightarrow> ktFactorFunction p f d = Inr (nominalCapacity p / f d)"
  by (simp add: ktFactorFunction_def)

theorem ktFactor_quotient_witness:
  "ktFactorFunction (ex_params 2 False) ex_amps 15 = Inr 3"
  using ktFactor_quotient [of ex_amps 15 "ex_params 2 False"]
  by (simp add: ex_defs)

subsection \<open>Cumulated durations\<close>

text \<open>
  Claim C6. For \<open>1 \<le> firstPeriod \<le> lastPeriod \<le>\<close> number of periods,
  durationBetweenPeriods returns the sum of the durations of the periods
  firstPeriod to lastPeriod, both included, counted from 1.
\<close>

theorem cumulative_duration_sum:
  assumes "1 \<le> firstPeriod" "firstPeriod \<le> lastPeriod" "lastPeriod \<le> int (length s)"
  shows "durationBetweenPeriods s firstPeriod lastPeriod =
           Inr (\<Sum>i = firstPeriod..lastPeriod. sectionDuration (s ! nat (i - 1)))"
  using durationBetweenPeriods_Inr [OF assms] by (simp add: cumulativeDuration_def)

theorem cumulative_duration_sum_witness:
  "durationBetweenPeriods ex_seq 1 2 = Inr 15
   \<and> (\<Sum>i = 1..2. sectionDuration (ex_seq ! nat (i - 1))) = 15"
  using cumulative_duration_sum [of 1 2 ex_seq]
  by (simp add: ex_seq_def durationBetweenPeriods_def checkPeriod_def)

subsection \<open>Indices out of range\<close>

text \<open>
  Claim C7. checkPeriod, ampsAtPeriod and cycleAtPeriod raise the IndexError of an unfit
  period for every index below 1 or above the number of periods, and so does
  durationBetweenPeriods when one of its bounds is such an index; with both bounds in
  range and firstPeriod above lastPeriod it raises the IndexError of the wrong order.
\<close>

theorem lookups_reject_out_of_range:
  "(period < 1 \<or> period > int (length s) \<longrightarrow>
      checkPeriod s period name = Inl (IndexError (Unfit name period (length s)))
      \<and> ampsAtPeriod s period =
          Inl (IndexError (Unfit ''ampsAtPeriod::period'' period (length s)))
      \<and> cycleAtPeriod s period =
          Inl (IndexError (Unfit ''cycleAtPeriod::period'' period (length s))))
   \<and> (firstPeriod < 1 \<or> firstPeriod > int (length s) \<longrightarrow>
      durationBetweenPeriods s firstPeriod lastPeriod =
        Inl (IndexError (Unfit ''durationBetweenPeriods::firstPeriod'' firstPeriod (length s))))
   \<and> (1 \<le> firstPeriod \<and> firstPeriod \<le> int (length s)
        \<and> (lastPeriod < 1 \<or> lastPeriod > int (length s)) \<longrightarrow>
      durationBetweenPeriods s firstPeriod lastPeriod =
        Inl (IndexError (Unfit ''durationBetweenPeriods::lastPeriod'' lastPeriod (length s))))
   \<and> (1 \<le> firstPeriod \<and> firstPeriod \<le> int (length s)
        \<and> 1 \<le> lastPeriod \<and> lastPeriod \<le> int (length s) \<and> firstPeriod > lastPeriod \<longrightarrow>
      durationBetweenPeriods s firstPeriod lastPeriod =
        Inl (IndexError (FirstAfterLast firstPeriod lastPeriod)))"
  by (simp add: checkPeriod_def ampsAtPeriod_def cycleAtPeriod_def durationBetweenPeriods_def)

theorem lookups_reject_out_of_range_witness:
  "ampsAtPeriod ex_seq 0 = Inl (IndexError (Unfit ''ampsAtPeriod::period'' 0 2))
   \<and> cycleAtPeriod ex_seq 3 = Inl (IndexError (Unfit ''cycleAtPeriod::period'' 3 2))
   \<and> durationBetweenPeriods ex_seq 0 1 =
       Inl (IndexError (Unfit ''durationBetweenPeriods::firstPeriod'' 0 2))
   \<and> durationBetweenPeriods ex_seq 1 3 =
       Inl (IndexError (Unfit ''durationBetweenPeriods::lastPeriod'' 3 2))
   \<and> durationBetweenPeriods ex_seq 2 1 = Inl (IndexError (FirstAfterLast 2 1))"
  using lookups_reject_out_of_range [of 0 ex_seq "''p''" 0 1]
    lookups_reject_out_of_range [of 3 ex_seq "''p''" 1 3]
    lookups_reject_out_of_range [of 3 ex_seq "''p''" 2 1]
  by (simp add: ex_seq_def)

subsection \<open>The check of numberOfSections\<close>

text \<open>
  Claim C9. When numberOfSections is below 1 or above the number of periods, the run ends
  on line 106 with the IndexError of an unfit period: no section has been evaluated and
  nothing of the sections or of the final report has been printed.
\<close>

theorem numberOfSections_out_of_range:
  assumes "numberOfSections p < 1 \<or> numberOfSections p > int (length s)"
  shows "main p f s =
           (Inl (IndexError (Unfit ''testParams.numberOfSections'' (numberOfSections p)
                   (length s))), [])"
  using assms by (simp add: main_def checkPeriod_def)

theorem numberOfSections_out_of_range_witness:
  "main (ex_params 3 True) ex_amps ex_seq =
     (Inl (IndexError (Unfit ''testParams.numberOfSections'' 3 2)), [])
   \<and> main (ex_params 0 True) ex_amps ex_seq =
     (Inl (IndexError (Unfit ''testParams.numberOfSections'' 0 2)), [])"
  using numberOfSections_out_of_range [of "ex_params 3 True" ex_seq ex_amps]
    numberOfSections_out_of_range [of "ex_params 0 True" ex_seq ex_amps]
  by (simp add: ex_defs)

subsection \<open>The last section\<close>

text \<open>
  Claim C10. For a section that is not below the number of periods the test of line 128
  is false at its first operand, so the section is evaluated. When numberOfSections is
  the number of periods (at least one), the section loop ends with a non-empty
  requiredSizesPerSection, and the run does not end with the error of the empty maximum.
\<close>

theorem last_section_always_evaluated:
  assumes "numberOfSections p = int (length s)" "0 < length s"
  shows "(\<forall>S \<ge> int (length s). skipCondition s S = Inr False)
         \<and> (\<exists>totals. fst (sectionLoop p f s [1..numberOfSections p] [] []) = Inr totals
                \<and> totals \<noteq> [])
         \<and> fst (main p f s) \<noteq> Inl (ValueError ZeroSizeMaximum)"
proof -
  let ?n = "numberOfSections p"
  let ?totals = "map (sectionTotal p f s) (filter (\<lambda>S. \<not> skipped s S) [1..?n])"
  have skip: "\<forall>S \<ge> int (length s). skipCondition s S = Inr False"
    by (simp add: skipCondition_def)
  have "\<forall>S \<in> set [1..?n]. 1 \<le> S \<and> S \<le> int (length s)"
    using assms by simp
  from sectionLoop_result [OF this, of p f "[]" "[]"]
  have loop: "fst (sectionLoop p f s [1..?n] [] []) = Inr ?totals"
    by simp
  have "?n \<in> set (filter (\<lambda>S. \<not> skipped s S) [1..?n])"
    using assms by (simp add: skipped_def Suc_le_eq)
  then have nonempty: "?totals \<noteq> []"
    by (metis empty_iff list.set(1) map_is_Nil_conv)
  obtain out where run: "sectionLoop p f s [1..?n] [] [] = (Inr ?totals, out)"
    using loop by (cases "sectionLoop p f s [1..?n] [] []") simp
  have "fst (main p f s) \<noteq> Inl (ValueError ZeroSizeMaximum)"
    using assms run aggregation_not_empty_failure [OF nonempty]
    by (cases s) (simp_all add: main_def checkPeriod_def cycleAtPeriod_def)
  with skip loop nonempty show ?thesis by blast
qed

theorem last_section_always_evaluated_witness:
  "skipCondition ex_seq 2 = Inr False
   \<and> fst (sectionLoop (ex_params 2 False) ex_amps ex_seq [1..2] [] []) = Inr [320]
   \<and> fst (main (ex_params 2 False) ex_amps ex_seq) \<noteq> Inl (ValueError ZeroSizeMaximum)"
  using last_section_always_evaluated [of "ex_params 2 False" ex_seq ex_amps]
  by (simp add: ex_defs run_defs upto.simps)

end
